theory Spec2Isabelle
  imports Main "HOL-Library.Word" "HOL-Library.Sublist"
begin

section \<open>Data model of \<open>src/app/index.jsx\<close>\<close>

text \<open>
  A JavaScript string is a sequence of UTF-16 code units. Task titles and task ids are
  JavaScript strings; \<open>===\<close> on two strings compares their code units, which is
  equality of the lists.
\<close>

type_synonym jsstring = "16 word list"

text \<open>
  A todo item as \<open>prepare\<close> builds it:
  \<^verbatim>\<open>{ id: nanoid(), title, done: false, createdAt: Date.now() }\<close>.
  The fields \<open>id\<close> and \<open>done\<close> carry a suffix because the bare names are taken in
  Isabelle.
\<close>

record task =
  id_t :: jsstring
  title :: jsstring
  done_t :: bool
  createdAt :: int

text \<open>The state of the \<open>ui\<close> slice and its \<open>initialState\<close>.\<close>

record ui_state =
  darkMode :: bool
  showBanner :: bool
  doneNotificationVisible :: bool

definition ui_initialState :: ui_state where
  "ui_initialState = \<lparr>darkMode = False, showBanner = True, doneNotificationVisible = False\<rparr>"

text \<open>The state of the \<open>todos\<close> slice and its \<open>initialState\<close>.\<close>

record todos_state =
  items :: "task list"

definition todos_initialState :: todos_state where
  "todos_initialState = \<lparr>items = []\<rparr>"

text \<open>The state of the store configured with the two slice reducers.\<close>

record root_state =
  ui :: ui_state
  todos :: todos_state

definition store_initialState :: root_state where
  "store_initialState = \<lparr>ui = ui_initialState, todos = todos_initialState\<rparr>"

text \<open>
  The eight actions of the two slices, with their payloads. The payload of \<open>addTodo\<close>
  is the item built by \<open>prepare\<close>; the payload of \<open>toggleTodo\<close> and \<open>removeTodo\<close> is
  an id.
\<close>

datatype action =
    ToggleDarkMode
  | DismissBanner
  | ShowDoneNotification
  | DismissDoneNotification
  | AddTodo task
  | ToggleTodo jsstring
  | RemoveTodo jsstring
  | ClearTodos

section \<open>Reducers\<close>

subsection \<open>The \<open>ui\<close> slice\<close>

definition toggleDarkMode :: "ui_state \<Rightarrow> ui_state" where
  "toggleDarkMode state = state\<lparr>darkMode := \<not> darkMode state\<rparr>"

definition dismissBanner :: "ui_state \<Rightarrow> ui_state" where
  "dismissBanner state = state\<lparr>showBanner := False\<rparr>"

definition showDoneNotification :: "ui_state \<Rightarrow> ui_state" where
  "showDoneNotification state = state\<lparr>doneNotificationVisible := True\<rparr>"

definition dismissDoneNotification :: "ui_state \<Rightarrow> ui_state" where
  "dismissDoneNotification state = state\<lparr>doneNotificationVisible := False\<rparr>"

text \<open>
  The reducer of a slice runs the case reducer whose action type it owns and returns
  the state as it is for every other action.
\<close>

fun uiReducer :: "ui_state \<Rightarrow> action \<Rightarrow> ui_state" where
  "uiReducer state ToggleDarkMode = toggleDarkMode state"
| "uiReducer state DismissBanner = dismissBanner state"
| "uiReducer state ShowDoneNotification = showDoneNotification state"
| "uiReducer state DismissDoneNotification = dismissDoneNotification state"
| "uiReducer state _ = state"

subsection \<open>The \<open>todos\<close> slice\<close>

text \<open>\<open>state.items.unshift(action.payload)\<close>: the payload becomes the first item.\<close>

definition addTodo_reducer :: "todos_state \<Rightarrow> task \<Rightarrow> todos_state" where
  "addTodo_reducer state payload = state\<lparr>items := payload # items state\<rparr>"

text \<open>
  \<open>Array.prototype.find\<close> returns the first element that satisfies the predicate, or
  \<open>undefined\<close>. The element is returned by reference, so the model returns its index.
\<close>

fun find_js :: "('a \<Rightarrow> bool) \<Rightarrow> 'a list \<Rightarrow> nat option" where
  "find_js p [] = None"
| "find_js p (x # xs) =
     (if p x then Some 0 else (case find_js p xs of None \<Rightarrow> None | Some k \<Rightarrow> Some (Suc k)))"

text \<open>
  \<^verbatim>\<open>const t = state.items.find((x) => x.id === action.payload);
  if (t) t.done = !t.done;\<close>
  An object is truthy and \<open>undefined\<close> is not; the assignment writes the \<open>done\<close> field
  of the element found, in place.
\<close>

definition toggleTodo :: "todos_state \<Rightarrow> jsstring \<Rightarrow> todos_state" where
  "toggleTodo state payload =
     (case find_js (\<lambda>x. id_t x = payload) (items state) of
        None \<Rightarrow> state
      | Some k \<Rightarrow>
          (let t = items state ! k
           in state\<lparr>items := (items state)[k := t\<lparr>done_t := \<not> done_t t\<rparr>]\<rparr>))"

definition removeTodo :: "todos_state \<Rightarrow> jsstring \<Rightarrow> todos_state" where
  "removeTodo state payload = state\<lparr>items := filter (\<lambda>x. id_t x \<noteq> payload) (items state)\<rparr>"

definition clearTodos :: "todos_state \<Rightarrow> todos_state" where
  "clearTodos state = state\<lparr>items := filter (\<lambda>item. \<not> done_t item) (items state)\<rparr>"

fun todosReducer :: "todos_state \<Rightarrow> action \<Rightarrow> todos_state" where
  "todosReducer state (AddTodo payload) = addTodo_reducer state payload"
| "todosReducer state (ToggleTodo payload) = toggleTodo state payload"
| "todosReducer state (RemoveTodo payload) = removeTodo state payload"
| "todosReducer state ClearTodos = clearTodos state"
| "todosReducer state _ = state"

subsection \<open>The store\<close>

text \<open>
  \<^verbatim>\<open>configureStore({ reducer: { ui: uiSlice.reducer, todos: todosSlice.reducer } })\<close>:
  every action goes to both slice reducers, each on its own part of the state.
\<close>

definition rootReducer :: "root_state \<Rightarrow> action \<Rightarrow> root_state" where
  "rootReducer state a = \<lparr>ui = uiReducer (ui state) a, todos = todosReducer (todos state) a\<rparr>"

section \<open>What the program takes from its environment\<close>

text \<open>
  \<open>nanoid\<close> (from the toolkit) and \<open>Date.now\<close> are not code of this program. They are
  parameters of the model: \<open>nanoid e n\<close> is the string that call number \<open>n\<close> of
  \<open>nanoid()\<close> returns, \<open>dateNow e n\<close> the number that call number \<open>n\<close> of
  \<open>Date.now()\<close> returns. Nothing is assumed of either unless a theorem says so.
\<close>

record env =
  nanoid :: "nat \<Rightarrow> jsstring"
  dateNow :: "nat \<Rightarrow> int"

text \<open>
  Everything a handler can read or change: the store, the \<open>title\<close> state of
  \<open>TodosCard\<close> (\<open>useState("")\<close>), how many times \<open>nanoid()\<close> and \<open>Date.now()\<close> have
  been called, and how many times \<open>Haptics.impactAsync\<close> has fired.
\<close>

record world =
  store :: root_state
  title_st :: jsstring
  nanoid_calls :: nat
  dateNow_calls :: nat
  haptics_calls :: nat

definition initialWorld :: world where
  "initialWorld =
     \<lparr>store = store_initialState, title_st = [], nanoid_calls = 0, dateNow_calls = 0,
      haptics_calls = 0\<rparr>"

subsection \<open>\<open>String.prototype.trim\<close>\<close>

text \<open>
  \<open>trim\<close> removes the leading and trailing code units that are WhiteSpace or
  LineTerminator in ECMAScript: TAB, LF, VT, FF, CR, SPACE, NBSP, U+1680,
  U+2000 to U+200A, U+2028, U+2029, U+202F, U+205F, U+3000 and U+FEFF.
\<close>

definition isWhiteSpace :: "16 word \<Rightarrow> bool" where
  "isWhiteSpace c \<longleftrightarrow>
     c = 0x0009 \<or> c = 0x000A \<or> c = 0x000B \<or> c = 0x000C \<or> c = 0x000D \<or> c = 0x0020 \<or>
     c = 0x00A0 \<or> c = 0x1680 \<or> (0x2000 \<le> c \<and> c \<le> 0x200A) \<or> c = 0x2028 \<or>
     c = 0x2029 \<or> c = 0x202F \<or> c = 0x205F \<or> c = 0x3000 \<or> c = 0xFEFF"

definition trim :: "jsstring \<Rightarrow> jsstring" where
  "trim s = rev (dropWhile isWhiteSpace (rev (dropWhile isWhiteSpace s)))"

subsection \<open>Action creators and dispatch\<close>

text \<open>
  \<open>addTodo(title)\<close> runs \<open>prepare\<close>:
  \<^verbatim>\<open>return { payload: { id: nanoid(), title, done: false, createdAt: Date.now() } }\<close>.
  It calls \<open>nanoid()\<close> once and \<open>Date.now()\<close> once and returns the action.
\<close>

definition addTodo :: "env \<Rightarrow> jsstring \<Rightarrow> world \<Rightarrow> action \<times> world" where
  "addTodo e ttl w =
     (AddTodo \<lparr>id_t = nanoid e (nanoid_calls w), title = ttl, done_t = False,
               createdAt = dateNow e (dateNow_calls w)\<rparr>,
      w\<lparr>nanoid_calls := Suc (nanoid_calls w), dateNow_calls := Suc (dateNow_calls w)\<rparr>)"

definition dispatch :: "action \<Rightarrow> world \<Rightarrow> world" where
  "dispatch a w = w\<lparr>store := rootReducer (store w) a\<rparr>"

text \<open>
  The eight operations on the store: an action creator applied to its argument, and the
  action dispatched.
\<close>

datatype operation =
    OpToggleDarkMode
  | OpDismissBanner
  | OpShowDoneNotification
  | OpDismissDoneNotification
  | OpAddTodo jsstring
  | OpToggleTodo jsstring
  | OpRemoveTodo jsstring
  | OpClearTodos

fun perform :: "env \<Rightarrow> world \<Rightarrow> operation \<Rightarrow> world" where
  "perform e w OpToggleDarkMode = dispatch ToggleDarkMode w"
| "perform e w OpDismissBanner = dispatch DismissBanner w"
| "perform e w OpShowDoneNotification = dispatch ShowDoneNotification w"
| "perform e w OpDismissDoneNotification = dispatch DismissDoneNotification w"
| "perform e w (OpAddTodo ttl) = (case addTodo e ttl w of (a, w') \<Rightarrow> dispatch a w')"
| "perform e w (OpToggleTodo i) = dispatch (ToggleTodo i) w"
| "perform e w (OpRemoveTodo i) = dispatch (RemoveTodo i) w"
| "perform e w OpClearTodos = dispatch ClearTodos w"

definition run :: "env \<Rightarrow> world \<Rightarrow> operation list \<Rightarrow> world" where
  "run e w ops = foldl (perform e) w ops"

subsection \<open>Handlers of \<open>TodosCard\<close> and \<open>Donecard\<close>\<close>

text \<open>
  \<^verbatim>\<open>const addTask = () => {
    if (!title.trim()) return;
    dispatch(addTodo(title.trim()));
    setTitle("");
    Haptics.impactAsync(Haptics.ImpactFeedbackStyle.Light);
  };\<close>
  A string is falsy exactly when it is empty.
\<close>

definition addTask :: "env \<Rightarrow> world \<Rightarrow> world" where
  "addTask e w =
     (if trim (title_st w) = [] then w
      else (case addTodo e (trim (title_st w)) w of
              (a, w1) \<Rightarrow>
                (let w2 = dispatch a w1;
                     w3 = w2\<lparr>title_st := []\<rparr>
                 in w3\<lparr>haptics_calls := Suc (haptics_calls w3)\<rparr>)))"

text \<open>The \<open>onSubmitEditing\<close> handler of the text input has the same four statements.\<close>

definition onSubmitEditing :: "env \<Rightarrow> world \<Rightarrow> world" where
  "onSubmitEditing e w =
     (if trim (title_st w) = [] then w
      else (case addTodo e (trim (title_st w)) w of
              (a, w1) \<Rightarrow>
                (let w2 = dispatch a w1;
                     w3 = w2\<lparr>title_st := []\<rparr>
                 in w3\<lparr>haptics_calls := Suc (haptics_calls w3)\<rparr>)))"

text \<open>
  \<^verbatim>\<open>const handleToggleDone = (id, currentDone) => {
    dispatch(toggleTodo(id));
    if (!currentDone) {
      dispatch(showDoneNotification());
    }
  };\<close>
\<close>

definition handleToggleDone :: "jsstring \<Rightarrow> bool \<Rightarrow> world \<Rightarrow> world" where
  "handleToggleDone i currentDone w =
     (let w1 = dispatch (ToggleTodo i) w
      in if \<not> currentDone then dispatch ShowDoneNotification w1 else w1)"

text \<open>
  Each call of \<open>dispatch\<close> is a step of the store of its own: the reducers run and the
  subscribers of the store are notified before the call returns. These are the worlds after
  each dispatch that \<open>handleToggleDone\<close> makes, in the order of the source; the last of
  them is the world the handler returns.
\<close>

definition handleToggleDone_states :: "jsstring \<Rightarrow> bool \<Rightarrow> world \<Rightarrow> world list" where
  "handleToggleDone_states i currentDone w =
     (let w1 = dispatch (ToggleTodo i) w
      in if \<not> currentDone then [w1, dispatch ShowDoneNotification w1] else [w1])"

text \<open>
  The intents the components emit, one per callback in the source. The callbacks of the
  buttons rendered for an item close over that item:
  \<^item> \<open>onChangeText={setTitle}\<close>, the Add button and \<open>onSubmitEditing\<close> of \<open>TodosCard\<close>;
  \<^item> the DONE button of an item of \<open>s.todos.items\<close>:
    \<open>handleToggleDone(item.id, item.done)\<close>;
  \<^item> the Remove button of an item, in both cards: \<open>dispatch(removeTodo(item.id))\<close>;
  \<^item> Clear Completed: \<open>dispatch(clearTodos())\<close>;
  \<^item> the Undo button of an item of \<open>s.todos.items.filter((item) => item.done)\<close> in
    \<open>Donecard\<close>: \<open>dispatch(toggleTodo(item.id))\<close>;
  \<^item> the dark mode switch and the Got it buttons of the two banners.
\<close>

datatype intent =
    ChangeText jsstring
  | PressAdd
  | SubmitEditing
  | PressDone task
  | PressRemove task
  | PressClearCompleted
  | PressUndo task
  | SwitchDarkMode
  | PressGotItBanner
  | PressGotItDoneNotification

fun handle :: "env \<Rightarrow> world \<Rightarrow> intent \<Rightarrow> world" where
  "handle e w (ChangeText s) = w\<lparr>title_st := s\<rparr>"
| "handle e w PressAdd = addTask e w"
| "handle e w SubmitEditing = onSubmitEditing e w"
| "handle e w (PressDone item) = handleToggleDone (id_t item) (done_t item) w"
| "handle e w (PressRemove item) = dispatch (RemoveTodo (id_t item)) w"
| "handle e w PressClearCompleted = dispatch ClearTodos w"
| "handle e w (PressUndo item) = dispatch (ToggleTodo (id_t item)) w"
| "handle e w SwitchDarkMode = dispatch ToggleDarkMode w"
| "handle e w PressGotItBanner = dispatch DismissBanner w"
| "handle e w PressGotItDoneNotification = dispatch DismissDoneNotification w"

text \<open>\<open>Array.prototype.find\<close> as a value: the element at the index found.\<close>

definition find_task :: "jsstring \<Rightarrow> task list \<Rightarrow> task option" where
  "find_task i xs = map_option (\<lambda>k. xs ! k) (find_js (\<lambda>x. id_t x = i) xs)"

text \<open>The selector \<open>(s) => s.todos.items\<close> on the store of a world.\<close>

definition items_of :: "world \<Rightarrow> task list" where
  "items_of w = items (todos (store w))"

text \<open>The selector \<open>(s) => s.ui.doneNotificationVisible\<close> on the store of a world.\<close>

definition doneNotificationVisible_of :: "world \<Rightarrow> bool" where
  "doneNotificationVisible_of w = doneNotificationVisible (ui (store w))"

text \<open>The selector \<open>(s) => s.ui.showBanner\<close> on the store of a world.\<close>

definition showBanner_of :: "world \<Rightarrow> bool" where
  "showBanner_of w = showBanner (ui (store w))"

section \<open>Concrete inputs\<close>

text \<open>
  An environment in which \<open>nanoid()\<close> returns \<open>"a"\<close>, \<open>"aa"\<close>, \<open>"aaa"\<close>, ... and
  \<open>Date.now()\<close> returns the same millisecond at every call.
\<close>

definition env_example :: env where
  "env_example = \<lparr>nanoid = (\<lambda>n. replicate (Suc n) 0x61), dateNow = (\<lambda>n. 1700000000000)\<rparr>"

text \<open>The initial world after three spaces were typed into the text input.\<close>

definition world_blank_title :: world where
  "world_blank_title = initialWorld\<lparr>title_st := [0x20, 0x20, 0x20]\<rparr>"

text \<open>The world after \<open>addTodo("B")\<close> was dispatched on the initial store.\<close>

definition world_one_task :: world where
  "world_one_task = run env_example initialWorld [OpAddTodo [0x42]]"

text \<open>The world with one task after \<open>" C "\<close> was typed into the text input.\<close>

definition world_typed :: world where
  "world_typed = world_one_task\<lparr>title_st := [0x20, 0x43, 0x20]\<rparr>"

text \<open>Two tasks, the first not done and the second done, and two states holding them.\<close>

definition task_b :: task where
  "task_b = \<lparr>id_t = [0x61], title = [0x42], done_t = False, createdAt = 1700000000000\<rparr>"

definition task_c :: task where
  "task_c = \<lparr>id_t = [0x61, 0x61], title = [0x43], done_t = True, createdAt = 1700000000000\<rparr>"

definition todos_mixed :: todos_state where
  "todos_mixed = \<lparr>items = [task_c, task_b]\<rparr>"

definition todos_undone :: todos_state where
  "todos_undone = \<lparr>items = [task_b]\<rparr>"

definition store_one_task :: root_state where
  "store_one_task = \<lparr>ui = ui_initialState, todos = todos_undone\<rparr>"

text \<open>The initial world after the information banner was dismissed.\<close>

definition world_dismissed :: world where
  "world_dismissed = perform env_example initialWorld OpDismissBanner"




section \<open>The invariant of the ids\<close>




section \<open>Facts about the library functions\<close>

lemma find_js_Some:
  "find_js p xs = Some k \<Longrightarrow> k < length xs \<and> p (xs ! k) \<and> (\<forall>j<k. \<not> p (xs ! j))"
proof (induction xs arbitrary: k)
  case Nil
  then show ?case by simp
next
  case (Cons x xs)
  show ?case
  proof (cases "p x")
    case True
    with Cons.prems show ?thesis by simp
  next
    case False
    with Cons.prems obtain k' where k': "find_js p xs = Some k'" "k = Suc k'"
      by (auto split: option.splits)
    from Cons.IH[OF k'(1)] False k'(2) show ?thesis
      by (auto simp: nth_Cons split: nat.splits)
  qed
qed

lemma find_js_None: "find_js p xs = None \<longleftrightarrow> (\<forall>x\<in>set xs. \<not> p x)"
  by (induction xs) (auto split: option.splits)

lemma find_js_update:
  assumes "find_js p xs = Some k" and "p y"
  shows "find_js p (xs[k := y]) = Some k"
  using assms
proof (induction xs arbitrary: k)
  case Nil
  then show ?case by simp
next
  case (Cons x xs)
  then show ?case by (auto split: if_splits option.splits)
qed

lemma find_task_Some:
  "find_task i xs = Some t \<Longrightarrow> \<exists>k. find_js (\<lambda>x. id_t x = i) xs = Some k \<and> t = xs ! k"
  by (auto simp: find_task_def)

text \<open>When the ids are pairwise different, every item is the one found under its id.\<close>

lemma find_task_distinct:
  assumes "distinct (map id_t xs)" and "t \<in> set xs"
  shows "find_task (id_t t) xs = Some t"
proof -
  from assms(2) have "find_js (\<lambda>x. id_t x = id_t t) xs \<noteq> None"
    by (auto simp: find_js_None)
  then obtain k where k: "find_js (\<lambda>x. id_t x = id_t t) xs = Some k" by auto
  from find_js_Some [OF k] have lt: "k < length xs" and idk: "id_t (xs ! k) = id_t t"
    by simp_all
  from assms(1) have "inj_on id_t (set xs)" by (simp add: distinct_map)
  with idk lt assms(2) have "xs ! k = t" by (auto dest: inj_onD)
  with k show ?thesis by (simp add: find_task_def)
qed

lemma dropWhile_all: "(\<forall>x\<in>set (dropWhile P s). P x) \<longleftrightarrow> (\<forall>x\<in>set s. P x)"
proof
  assume a: "\<forall>x\<in>set (dropWhile P s). P x"
  have "dropWhile P s = []"
  proof (rule ccontr)
    assume n: "dropWhile P s \<noteq> []"
    then have "\<not> P (hd (dropWhile P s))" by (rule hd_dropWhile)
    moreover from n have "hd (dropWhile P s) \<in> set (dropWhile P s)" by simp
    ultimately show False using a by blast
  qed
  then show "\<forall>x\<in>set s. P x" by (simp add: dropWhile_eq_Nil_conv)
next
  assume "\<forall>x\<in>set s. P x"
  then show "\<forall>x\<in>set (dropWhile P s). P x" by (blast dest: set_dropWhileD)
qed

text \<open>The trimmed string is empty exactly when every code unit is white space.\<close>

lemma trim_empty_iff: "trim s = [] \<longleftrightarrow> (\<forall>c\<in>set s. isWhiteSpace c)"
  by (simp add: trim_def dropWhile_eq_Nil_conv dropWhile_all)

section \<open>Facts about the reducers and handlers\<close>

lemma items_toggle_found:
  assumes "find_js (\<lambda>x. id_t x = i) (items s) = Some k"
  shows "items (toggleTodo s i) = (items s)[k := (items s ! k)\<lparr>done_t := \<not> done_t (items s ! k)\<rparr>]"
  using assms by (simp add: toggleTodo_def Let_def)

lemma find_task_toggle:
  assumes "find_task i (items s) = Some t"
  shows "find_task i (items (toggleTodo s i)) = Some (t\<lparr>done_t := \<not> done_t t\<rparr>)"
proof -
  from find_task_Some [OF assms] obtain k
    where k: "find_js (\<lambda>x. id_t x = i) (items s) = Some k" and t: "t = items s ! k"
    by blast
  from find_js_Some [OF k] have lt: "k < length (items s)" and idk: "id_t (items s ! k) = i"
    by simp_all
  have "find_js (\<lambda>x. id_t x = i) ((items s)[k := t\<lparr>done_t := \<not> done_t t\<rparr>]) = Some k"
    by (rule find_js_update [OF k]) (simp add: t idk)
  then show ?thesis
    using lt by (simp add: find_task_def items_toggle_found [OF k] t)
qed

lemma toggleTodo_twice: "toggleTodo (toggleTodo s i) i = s"
proof (cases "find_js (\<lambda>x. id_t x = i) (items s)")
  case None
  then show ?thesis by (simp add: toggleTodo_def)
next
  case (Some k)
  let ?t = "items s ! k"
  from find_js_Some [OF Some] have idk: "id_t ?t = i" by simp
  have 1: "items (toggleTodo s i) = (items s)[k := ?t\<lparr>done_t := \<not> done_t ?t\<rparr>]"
    by (rule items_toggle_found [OF Some])
  have 2: "find_js (\<lambda>x. id_t x = i) (items (toggleTodo s i)) = Some k"
    unfolding 1 by (rule find_js_update [OF Some]) (simp add: idk)
  have "items (toggleTodo (toggleTodo s i) i) = items s"
    using find_js_Some [OF Some] by (simp add: items_toggle_found [OF 2] 1)
  then show ?thesis by simp
qed

lemma items_of_dispatch_ToggleTodo:
  "items_of (dispatch (ToggleTodo i) w) = items (toggleTodo (todos (store w)) i)"
  by (simp add: items_of_def dispatch_def rootReducer_def)

lemma items_of_dispatch_Show:
  "items_of (dispatch ShowDoneNotification w) = items_of w"
  by (simp add: items_of_def dispatch_def rootReducer_def)

lemma notif_dispatch:
  "doneNotificationVisible_of (dispatch a w) =
     (a = ShowDoneNotification \<or> (a \<noteq> DismissDoneNotification \<and> doneNotificationVisible_of w))"
  by (cases a)
    (simp_all add: doneNotificationVisible_of_def dispatch_def rootReducer_def toggleDarkMode_def
      dismissBanner_def showDoneNotification_def dismissDoneNotification_def)

lemma notif_addTask:
  "doneNotificationVisible_of (addTask e w) = doneNotificationVisible_of w"
  by (simp add: addTask_def addTodo_def Let_def doneNotificationVisible_of_def dispatch_def
      rootReducer_def)

lemma notif_onSubmitEditing:
  "doneNotificationVisible_of (onSubmitEditing e w) = doneNotificationVisible_of w"
  by (simp add: onSubmitEditing_def addTodo_def Let_def doneNotificationVisible_of_def
      dispatch_def rootReducer_def)

lemma notif_handleToggleDone:
  "doneNotificationVisible_of (handleToggleDone i c w) = (\<not> c \<or> doneNotificationVisible_of w)"
  by (simp add: handleToggleDone_def Let_def notif_dispatch)

lemma items_of_handleToggleDone:
  "items_of (handleToggleDone i c w) = items (toggleTodo (todos (store w)) i)"
  by (simp add: handleToggleDone_def Let_def items_of_dispatch_Show items_of_dispatch_ToggleTodo)

lemma world_one_task_eq:
  "world_one_task =
     \<lparr>store = \<lparr>ui = ui_initialState,
        todos = \<lparr>items = [\<lparr>id_t = [0x61], title = [0x42], done_t = False,
                            createdAt = 1700000000000\<rparr>]\<rparr>\<rparr>,
      title_st = [], nanoid_calls = 1, dateNow_calls = 1, haptics_calls = 0\<rparr>"
  by (simp add: world_one_task_def run_def env_example_def initialWorld_def addTodo_def
      dispatch_def rootReducer_def addTodo_reducer_def store_initialState_def
      todos_initialState_def)

lemma filter_ids_absent:
  "i \<notin> set (map id_t xs) \<Longrightarrow> filter (\<lambda>x. id_t x \<noteq> i) xs = xs"
  by (induction xs) auto

lemma showBanner_dispatch:
  "showBanner_of (dispatch a w) = (a \<noteq> DismissBanner \<and> showBanner_of w)"
  by (cases a)
    (simp_all add: showBanner_of_def dispatch_def rootReducer_def toggleDarkMode_def
      dismissBanner_def showDoneNotification_def dismissDoneNotification_def)

lemma showBanner_perform:
  "showBanner_of (perform e w op) = (op \<noteq> OpDismissBanner \<and> showBanner_of w)"
proof (cases op)
  case (OpAddTodo ttl)
  then show ?thesis
    by (simp add: addTodo_def showBanner_of_def dispatch_def rootReducer_def)
qed (simp_all add: showBanner_dispatch)

lemma showBanner_run: "\<not> showBanner_of w \<Longrightarrow> \<not> showBanner_of (run e w ops)"
  unfolding run_def by (induction ops arbitrary: w) (simp_all add: showBanner_perform)







lemma handleToggleDone_last:
  "handleToggleDone i c w = last (handleToggleDone_states i c w)"
  by (simp add: handleToggleDone_def handleToggleDone_states_def Let_def)










lemma notif_dispatch_ToggleTodo:
  "doneNotificationVisible_of (dispatch (ToggleTodo i) w) = doneNotificationVisible_of w"
  by (simp add: notif_dispatch)


lemma hd_states_world_one_task:
  "hd (handleToggleDone_states [0x61] False world_one_task) =
     \<lparr>store = \<lparr>ui = ui_initialState,
        todos = \<lparr>items = [\<lparr>id_t = [0x61], title = [0x42], done_t = True,
                            createdAt = 1700000000000\<rparr>]\<rparr>\<rparr>,
      title_st = [], nanoid_calls = 1, dateNow_calls = 1, haptics_calls = 0\<rparr>"
  by (simp add: handleToggleDone_states_def Let_def world_one_task_eq dispatch_def
      rootReducer_def toggleTodo_def)

section \<open>The claims\<close>

text \<open>
  C1. When the title in the text input trims to the empty string (it is empty or all white
  space), \<open>addTask\<close> is a no-op: the world it returns is the world it was given. So the
  items are the same in number and content, \<open>nanoid()\<close> was not called (no id was
  allocated), the haptic feedback did not fire and the text input keeps its content. The
  \<open>onSubmitEditing\<close> handler behaves the same. The guard is in the handlers, not in the
  \<open>addTodo\<close> reducer.
\<close>

theorem addTask_blank_noop:
  "trim (title_st w) = [] \<Longrightarrow>
     addTask e w = w \<and> onSubmitEditing e w = w \<and>
     items_of (addTask e w) = items_of w \<and>
     nanoid_calls (addTask e w) = nanoid_calls w \<and>
     haptics_calls (addTask e w) = haptics_calls w"
  by (simp add: addTask_def onSubmitEditing_def)

theorem addTask_blank_noop_witness:
  "trim (title_st world_blank_title) = [] \<and>
   addTask env_example world_blank_title = world_blank_title \<and>
   items_of (addTask env_example world_blank_title) = [] \<and>
   nanoid_calls (addTask env_example world_blank_title) = 0 \<and>
   haptics_calls (addTask env_example world_blank_title) = 0"
proof -
  have h: "trim (title_st world_blank_title) = []"
    by (simp add: world_blank_title_def trim_def isWhiteSpace_def)
  from addTask_blank_noop [OF h, of env_example] show ?thesis
    using h by (simp add: world_blank_title_def initialWorld_def items_of_def
        store_initialState_def todos_initialState_def)
qed

text \<open>
  C2. Let \<open>t\<close> be the task that the store finds under the id \<open>i\<close>. Its DONE button
  calls \<open>handleToggleDone(item.id, item.done)\<close>, which makes two dispatches when the item is
  not done: \<open>toggleTodo\<close>, after which the task is done and \<open>doneNotificationVisible\<close> is
  still what it was, and then \<open>showDoneNotification\<close>, after which the flag is true; the
  world the handler returns is the second of these. If \<open>t\<close> is done, the handler makes the
  one dispatch of \<open>toggleTodo\<close>, and it and the Undo button leave
  \<open>doneNotificationVisible\<close> as it was and the task not done. Whether the handler shows the
  notification is decided by its \<open>currentDone\<close> argument alone. No intent other than the
  DONE button of an item that is not done turns \<open>doneNotificationVisible\<close> from false to
  true.
\<close>

theorem toggle_then_notification:
  assumes "find_task i (items_of w) = Some t"
  shows "(\<not> done_t t \<longrightarrow>
            handleToggleDone_states i (done_t t) w =
              [dispatch (ToggleTodo i) w, handle e w (PressDone t)] \<and>
            find_task i (items_of (dispatch (ToggleTodo i) w)) = Some (t\<lparr>done_t := True\<rparr>) \<and>
            doneNotificationVisible_of (dispatch (ToggleTodo i) w) =
              doneNotificationVisible_of w \<and>
            doneNotificationVisible_of (handle e w (PressDone t)) \<and>
            find_task i (items_of (handle e w (PressDone t))) = Some (t\<lparr>done_t := True\<rparr>)) \<and>
         (done_t t \<longrightarrow>
            handleToggleDone_states i (done_t t) w = [handle e w (PressDone t)] \<and>
            doneNotificationVisible_of (handle e w (PressDone t)) = doneNotificationVisible_of w \<and>
            doneNotificationVisible_of (handle e w (PressUndo t)) = doneNotificationVisible_of w \<and>
            find_task i (items_of (handle e w (PressDone t))) = Some (t\<lparr>done_t := False\<rparr>) \<and>
            find_task i (items_of (handle e w (PressUndo t))) = Some (t\<lparr>done_t := False\<rparr>)) \<and>
         handleToggleDone j c w = last (handleToggleDone_states j c w) \<and>
         doneNotificationVisible_of (handleToggleDone j c w) =
           (\<not> c \<or> doneNotificationVisible_of w) \<and>
         (\<forall>it. (\<forall>x. it = PressDone x \<longrightarrow> done_t x) \<longrightarrow>
            doneNotificationVisible_of (handle e w it) \<longrightarrow> doneNotificationVisible_of w)"
proof -
  from assms have f: "find_task i (items (todos (store w))) = Some t"
    by (simp add: items_of_def)
  from find_task_Some [OF f] find_js_Some have idt: "id_t t = i"
    by blast
  have flip: "find_task i (items (toggleTodo (todos (store w)) i)) = Some (t\<lparr>done_t := \<not> done_t t\<rparr>)"
    by (rule find_task_toggle [OF f])
  have states: "handleToggleDone_states i (done_t t) w =
      (if done_t t then [handle e w (PressDone t)]
       else [dispatch (ToggleTodo i) w, handle e w (PressDone t)])"
    by (simp add: handleToggleDone_states_def handleToggleDone_def Let_def idt)
  have other: "doneNotificationVisible_of (handle e w it) \<longrightarrow> doneNotificationVisible_of w"
    if "\<forall>x. it = PressDone x \<longrightarrow> done_t x" for it
  proof (cases it)
    case (ChangeText s)
    then show ?thesis by (simp add: doneNotificationVisible_of_def)
  next
    case (PressDone x)
    with that have "done_t x" by simp
    with PressDone show ?thesis by (simp add: notif_handleToggleDone)
  qed (simp_all add: notif_addTask notif_onSubmitEditing notif_dispatch)
  have hd: "handle e w (PressDone t) = handleToggleDone i (done_t t) w"
    by (simp add: idt)
  have un: "handle e w (PressUndo t) = dispatch (ToggleTodo i) w"
    by (simp add: idt)
  have it1: "find_task i (items_of (dispatch (ToggleTodo i) w)) = Some (t\<lparr>done_t := \<not> done_t t\<rparr>)"
    using flip by (simp add: items_of_dispatch_ToggleTodo)
  have it2: "find_task i (items_of (handle e w (PressDone t))) = Some (t\<lparr>done_t := \<not> done_t t\<rparr>)"
    unfolding hd using flip by (simp add: items_of_handleToggleDone)
  have n1: "doneNotificationVisible_of (dispatch (ToggleTodo i) w) = doneNotificationVisible_of w"
    by (rule notif_dispatch_ToggleTodo)
  have n2: "doneNotificationVisible_of (handle e w (PressDone t)) =
      (\<not> done_t t \<or> doneNotificationVisible_of w)"
    unfolding hd by (rule notif_handleToggleDone)
  have 1: "\<not> done_t t \<longrightarrow>
            handleToggleDone_states i (done_t t) w =
              [dispatch (ToggleTodo i) w, handle e w (PressDone t)] \<and>
            find_task i (items_of (dispatch (ToggleTodo i) w)) = Some (t\<lparr>done_t := True\<rparr>) \<and>
            doneNotificationVisible_of (dispatch (ToggleTodo i) w) =
              doneNotificationVisible_of w \<and>
            doneNotificationVisible_of (handle e w (PressDone t)) \<and>
            find_task i (items_of (handle e w (PressDone t))) = Some (t\<lparr>done_t := True\<rparr>)"
  proof
    assume d: "\<not> done_t t"
    from states d have "handleToggleDone_states i (done_t t) w =
        [dispatch (ToggleTodo i) w, handle e w (PressDone t)]"
      by (simp only: if_False)
    moreover from it1 d have "find_task i (items_of (dispatch (ToggleTodo i) w)) =
        Some (t\<lparr>done_t := True\<rparr>)" by simp
    moreover from n2 d have "doneNotificationVisible_of (handle e w (PressDone t))" by blast
    moreover from it2 d have "find_task i (items_of (handle e w (PressDone t))) =
        Some (t\<lparr>done_t := True\<rparr>)" by simp
    ultimately show "handleToggleDone_states i (done_t t) w =
              [dispatch (ToggleTodo i) w, handle e w (PressDone t)] \<and>
            find_task i (items_of (dispatch (ToggleTodo i) w)) = Some (t\<lparr>done_t := True\<rparr>) \<and>
            doneNotificationVisible_of (dispatch (ToggleTodo i) w) =
              doneNotificationVisible_of w \<and>
            doneNotificationVisible_of (handle e w (PressDone t)) \<and>
            find_task i (items_of (handle e w (PressDone t))) = Some (t\<lparr>done_t := True\<rparr>)"
      using n1 by blast
  qed
  have 2: "done_t t \<longrightarrow>
            handleToggleDone_states i (done_t t) w = [handle e w (PressDone t)] \<and>
            doneNotificationVisible_of (handle e w (PressDone t)) = doneNotificationVisible_of w \<and>
            doneNotificationVisible_of (handle e w (PressUndo t)) = doneNotificationVisible_of w \<and>
            find_task i (items_of (handle e w (PressDone t))) = Some (t\<lparr>done_t := False\<rparr>) \<and>
            find_task i (items_of (handle e w (PressUndo t))) = Some (t\<lparr>done_t := False\<rparr>)"
  proof
    assume d: "done_t t"
    from states d have "handleToggleDone_states i (done_t t) w = [handle e w (PressDone t)]"
      by (simp only: if_True)
    moreover from n2 d have "doneNotificationVisible_of (handle e w (PressDone t)) =
        doneNotificationVisible_of w" by blast
    moreover from n1 have "doneNotificationVisible_of (handle e w (PressUndo t)) =
        doneNotificationVisible_of w" by (simp only: un)
    moreover from it2 d have "find_task i (items_of (handle e w (PressDone t))) =
        Some (t\<lparr>done_t := False\<rparr>)" by simp
    moreover from it1 d have "find_task i (items_of (handle e w (PressUndo t))) =
        Some (t\<lparr>done_t := False\<rparr>)" by (simp add: idt)
    ultimately show "handleToggleDone_states i (done_t t) w = [handle e w (PressDone t)] \<and>
            doneNotificationVisible_of (handle e w (PressDone t)) = doneNotificationVisible_of w \<and>
            doneNotificationVisible_of (handle e w (PressUndo t)) = doneNotificationVisible_of w \<and>
            find_task i (items_of (handle e w (PressDone t))) = Some (t\<lparr>done_t := False\<rparr>) \<and>
            find_task i (items_of (handle e w (PressUndo t))) = Some (t\<lparr>done_t := False\<rparr>)"
      by blast
  qed
  have 3: "handleToggleDone j c w = last (handleToggleDone_states j c w)"
    by (rule handleToggleDone_last)
  have 4: "doneNotificationVisible_of (handleToggleDone j c w) =
           (\<not> c \<or> doneNotificationVisible_of w)"
    by (rule notif_handleToggleDone)
  from 1 2 3 4 other show ?thesis by blast
qed

theorem toggle_then_notification_witness:
  "find_task [0x61] (items_of world_one_task) = Some task_b \<and>
   \<not> doneNotificationVisible_of world_one_task \<and>
   handleToggleDone_states [0x61] False world_one_task =
     [dispatch (ToggleTodo [0x61]) world_one_task,
      handle env_example world_one_task (PressDone task_b)] \<and>
   \<not> doneNotificationVisible_of (dispatch (ToggleTodo [0x61]) world_one_task) \<and>
   doneNotificationVisible_of (handle env_example world_one_task (PressDone task_b)) \<and>
   find_task [0x61] (items_of (handle env_example world_one_task (PressDone task_b))) =
     Some (task_b\<lparr>done_t := True\<rparr>) \<and>
   \<not> doneNotificationVisible_of (handle env_example world_one_task PressAdd) \<and>
   \<not> doneNotificationVisible_of (handle env_example world_one_task (PressRemove task_b))"
proof -
  have h: "find_task [0x61] (items_of world_one_task) = Some task_b"
    by (simp add: world_one_task_eq find_task_def items_of_def task_b_def)
  have n: "\<not> doneNotificationVisible_of world_one_task"
    by (simp add: world_one_task_eq doneNotificationVisible_of_def ui_initialState_def)
  have u: "\<not> done_t task_b" by (simp add: task_b_def)
  from toggle_then_notification [OF h, of env_example] u
  have s: "handleToggleDone_states [0x61] (done_t task_b) world_one_task =
     [dispatch (ToggleTodo [0x61]) world_one_task,
      handle env_example world_one_task (PressDone task_b)]"
    and m: "doneNotificationVisible_of (dispatch (ToggleTodo [0x61]) world_one_task) =
      doneNotificationVisible_of world_one_task"
    and a: "doneNotificationVisible_of (handle env_example world_one_task (PressDone task_b))"
    and a': "find_task [0x61] (items_of (handle env_example world_one_task (PressDone task_b))) =
      Some (task_b\<lparr>done_t := True\<rparr>)"
    and b: "\<forall>it. (\<forall>x. it = PressDone x \<longrightarrow> done_t x) \<longrightarrow>
              doneNotificationVisible_of (handle env_example world_one_task it) \<longrightarrow>
              doneNotificationVisible_of world_one_task"
    by blast+
  from s u have s': "handleToggleDone_states [0x61] False world_one_task =
     [dispatch (ToggleTodo [0x61]) world_one_task,
      handle env_example world_one_task (PressDone task_b)]"
    by simp
  have c: "\<not> doneNotificationVisible_of (handle env_example world_one_task it)"
    if "\<forall>x. it = PressDone x \<longrightarrow> done_t x" for it
    using b n that by blast
  have "\<not> doneNotificationVisible_of (handle env_example world_one_task PressAdd)"
    by (rule c) simp
  moreover have "\<not> doneNotificationVisible_of (handle env_example world_one_task (PressRemove task_b))"
    by (rule c) simp
  ultimately show ?thesis using h n s' m a a' by blast
qed

text \<open>
  C2, counterexample. The toggle and the notification are two steps of the store, not one. After the first dispatch of the handler the task is done and
  \<open>doneNotificationVisible\<close> is false.
\<close>

theorem toggle_not_atomic_counterexample:
  "find_task [0x61] (items_of world_one_task) = Some task_b \<and>
   done_t task_b = False \<and>
   find_task [0x61] (items_of (hd (handleToggleDone_states [0x61] False world_one_task))) =
     Some (task_b\<lparr>done_t := True\<rparr>) \<and>
   doneNotificationVisible_of (hd (handleToggleDone_states [0x61] False world_one_task)) = False"
proof -
  have "find_task [0x61] (items_of world_one_task) = Some task_b"
    by (simp add: world_one_task_eq find_task_def items_of_def task_b_def)
  moreover have "done_t task_b = False" by (simp add: task_b_def)
  moreover have "find_task [0x61]
      (items_of (hd (handleToggleDone_states [0x61] False world_one_task))) =
     Some (task_b\<lparr>done_t := True\<rparr>)"
    unfolding hd_states_world_one_task by (simp add: find_task_def items_of_def task_b_def)
  moreover have
    "doneNotificationVisible_of (hd (handleToggleDone_states [0x61] False world_one_task)) = False"
    unfolding hd_states_world_one_task
    by (simp add: doneNotificationVisible_of_def ui_initialState_def)
  ultimately show ?thesis by blast
qed




text \<open>
  C4. When the title in the text input does not trim to the empty string, \<open>addTask\<close>
  makes the list of items one longer: the new item is at index 0, with the trimmed title,
  \<open>done\<close> false, the id that \<open>nanoid()\<close> returns and \<open>createdAt\<close> the value that
  \<open>Date.now()\<close> returns, and the items that were there follow it, unchanged and in the
  same order. The operation on the store prepends in the same way for every title.
\<close>

theorem addTask_prepends:
  "(trim (title_st w) \<noteq> [] \<longrightarrow>
      items_of (addTask e w) =
        \<lparr>id_t = nanoid e (nanoid_calls w), title = trim (title_st w), done_t = False,
         createdAt = dateNow e (dateNow_calls w)\<rparr> # items_of w \<and>
      length (items_of (addTask e w)) = length (items_of w) + 1 \<and>
      done_t (items_of (addTask e w) ! 0) = False \<and>
      createdAt (items_of (addTask e w) ! 0) = dateNow e (dateNow_calls w) \<and>
      title (items_of (addTask e w) ! 0) = trim (title_st w) \<and>
      drop 1 (items_of (addTask e w)) = items_of w) \<and>
   items_of (perform e w (OpAddTodo ttl)) =
     \<lparr>id_t = nanoid e (nanoid_calls w), title = ttl, done_t = False,
      createdAt = dateNow e (dateNow_calls w)\<rparr> # items_of w"
  by (simp add: addTask_def addTodo_def Let_def items_of_def dispatch_def rootReducer_def
      addTodo_reducer_def)

theorem addTask_prepends_witness:
  "trim (title_st world_typed) \<noteq> [] \<and>
   items_of (addTask env_example world_typed) =
     [\<lparr>id_t = [0x61, 0x61], title = [0x43], done_t = False, createdAt = 1700000000000\<rparr>,
      \<lparr>id_t = [0x61], title = [0x42], done_t = False, createdAt = 1700000000000\<rparr>]"
proof -
  have t: "trim (title_st world_typed) = [0x43]"
    by (simp add: world_typed_def trim_def isWhiteSpace_def)
  then have h: "trim (title_st world_typed) \<noteq> []" by simp
  from addTask_prepends [of world_typed env_example] h
  have "items_of (addTask env_example world_typed) =
        \<lparr>id_t = nanoid env_example (nanoid_calls world_typed), title = trim (title_st world_typed),
         done_t = False, createdAt = dateNow env_example (dateNow_calls world_typed)\<rparr>
          # items_of world_typed"
    by blast
  with h t show ?thesis
    by (simp add: world_typed_def world_one_task_eq items_of_def env_example_def)
qed

text \<open>
  C5. \<open>clearTodos\<close> keeps exactly the items that are not done: the items left are those
  of the old list with \<open>done\<close> false, each as many times as before, and they form a
  subsequence of the old list, so their order is kept. Applying it twice gives what applying
  it once gives. On a list with no done item it returns the state unchanged; there is no
  error to return.
\<close>

theorem clearTodos_removes_done:
  "set (items (clearTodos s)) = {t \<in> set (items s). \<not> done_t t} \<and>
   (\<forall>t. \<not> done_t t \<longrightarrow> count_list (items (clearTodos s)) t = count_list (items s) t) \<and>
   subseq (items (clearTodos s)) (items s) \<and>
   clearTodos (clearTodos s) = clearTodos s \<and>
   ((\<forall>t\<in>set (items s). \<not> done_t t) \<longrightarrow> clearTodos s = s)"
proof -
  have c: "\<not> done_t t \<Longrightarrow> count_list (filter (\<lambda>item. \<not> done_t item) xs) t = count_list xs t"
    for t :: task and xs
    by (induction xs) auto
  have n: "(\<forall>t\<in>set (items s). \<not> done_t t) \<longrightarrow> clearTodos s = s"
  proof
    assume "\<forall>t\<in>set (items s). \<not> done_t t"
    then have "filter (\<lambda>item. \<not> done_t item) (items s) = items s"
      by (simp add: filter_id_conv)
    then show "clearTodos s = s" by (simp add: clearTodos_def)
  qed
  show ?thesis
    using c n by (simp add: clearTodos_def)
qed

theorem clearTodos_removes_done_witness:
  "set (items (clearTodos todos_mixed)) = {task_b} \<and>
   count_list (items (clearTodos todos_mixed)) task_b = 1 \<and>
   clearTodos todos_undone = todos_undone"
proof -
  have a: "{t \<in> set (items todos_mixed). \<not> done_t t} = {task_b}"
    by (auto simp: todos_mixed_def task_b_def task_c_def)
  have b: "\<not> done_t task_b" by (simp add: task_b_def)
  have c: "count_list (items todos_mixed) task_b = 1"
    by (simp add: todos_mixed_def task_b_def task_c_def)
  have d: "\<forall>t\<in>set (items todos_undone). \<not> done_t t"
    by (simp add: todos_undone_def task_b_def)
  from clearTodos_removes_done [of todos_mixed] a b c
  have 1: "set (items (clearTodos todos_mixed)) = {task_b}"
    and 2: "count_list (items (clearTodos todos_mixed)) task_b = 1"
    by simp_all
  from clearTodos_removes_done [of todos_undone] d
  have 3: "clearTodos todos_undone = todos_undone"
    by blast
  from 1 2 3 show ?thesis by blast
qed

text \<open>
  C6. When \<open>find\<close> returns a task for the id, \<open>toggleTodo\<close> negates the \<open>done\<close> flag of
  that task, and applying \<open>toggleTodo\<close> with the same id a second time gives back the task
  and the whole state as they were.
\<close>

theorem toggleTodo_involution:
  assumes "find_task i (items s) = Some t"
  shows "find_task i (items (toggleTodo s i)) = Some (t\<lparr>done_t := \<not> done_t t\<rparr>) \<and>
         find_task i (items (toggleTodo (toggleTodo s i) i)) = Some t \<and>
         toggleTodo (toggleTodo s i) i = s"
  using assms by (simp add: find_task_toggle toggleTodo_twice)

theorem toggleTodo_involution_witness:
  "find_task [0x61] (items todos_mixed) = Some task_b \<and>
   find_task [0x61] (items (toggleTodo todos_mixed [0x61])) = Some (task_b\<lparr>done_t := True\<rparr>) \<and>
   find_task [0x61] (items (toggleTodo (toggleTodo todos_mixed [0x61]) [0x61])) = Some task_b"
proof -
  have h: "find_task [0x61] (items todos_mixed) = Some task_b"
    by (simp add: find_task_def todos_mixed_def task_b_def task_c_def)
  have "\<not> done_t task_b" by (simp add: task_b_def)
  with toggleTodo_involution [OF h] h show ?thesis by simp
qed

text \<open>
  C7. When no item has the id, dispatching \<open>toggleTodo\<close> and dispatching \<open>removeTodo\<close>
  with that id both return the state of the store as it was, items and flags. Neither
  reducer has a statement that throws.
\<close>

theorem unknown_id_noop:
  assumes "i \<notin> set (map id_t (items (todos s)))"
  shows "rootReducer s (ToggleTodo i) = s \<and> rootReducer s (RemoveTodo i) = s \<and>
         (store w = s \<longrightarrow> perform e w (OpToggleTodo i) = w \<and> perform e w (OpRemoveTodo i) = w)"
proof -
  from assms have "find_js (\<lambda>x. id_t x = i) (items (todos s)) = None"
    by (auto simp: find_js_None)
  then have t: "toggleTodo (todos s) i = todos s"
    by (simp add: toggleTodo_def)
  from assms have r: "removeTodo (todos s) i = todos s"
    by (simp add: removeTodo_def filter_ids_absent)
  show ?thesis
    using t r by (auto simp: rootReducer_def dispatch_def)
qed

theorem unknown_id_noop_witness:
  "[0x7A] \<notin> set (map id_t (items (todos (store world_one_task)))) \<and>
   perform env_example world_one_task (OpToggleTodo [0x7A]) = world_one_task \<and>
   perform env_example world_one_task (OpRemoveTodo [0x7A]) = world_one_task"
proof -
  have h: "[0x7A] \<notin> set (map id_t (items (todos (store world_one_task))))"
    by (simp add: world_one_task_eq)
  from unknown_id_noop [OF h, of world_one_task env_example] h show ?thesis
    by simp
qed

text \<open>
  C8. Dispatching \<open>dismissBanner\<close> makes \<open>showBanner\<close> false, and from a state in which
  \<open>showBanner\<close> is false no sequence of the eight operations makes it true.
\<close>

theorem banner_dismissal_one_way:
  "\<not> showBanner_of (perform e w OpDismissBanner) \<and>
   (\<not> showBanner_of w \<longrightarrow> \<not> showBanner_of (run e w ops))"
  by (simp add: showBanner_dispatch showBanner_run)

theorem banner_dismissal_one_way_witness:
  "showBanner_of initialWorld \<and> \<not> showBanner_of world_dismissed \<and>
   \<not> showBanner_of (run env_example world_dismissed
        [OpAddTodo [0x42], OpToggleTodo [0x61], OpShowDoneNotification, OpToggleDarkMode,
         OpDismissDoneNotification, OpClearTodos, OpRemoveTodo [0x61], OpDismissBanner])"
proof -
  have a: "showBanner_of initialWorld"
    by (simp add: showBanner_of_def initialWorld_def store_initialState_def ui_initialState_def)
  have b: "\<not> showBanner_of world_dismissed"
    unfolding world_dismissed_def
    using banner_dismissal_one_way [of env_example initialWorld "[]"] by simp
  from banner_dismissal_one_way [of env_example world_dismissed] a b show ?thesis
    by simp
qed

text \<open>
  C9. \<open>toggleTodo\<close> keeps the number of items, and the id, the title and \<open>createdAt\<close> of
  the item at every index, so the order is kept too. An item whose id is not the payload is
  unchanged, and at most one item of the list changes.
\<close>

theorem toggleTodo_frame:
  "length (items (toggleTodo s i)) = length (items s) \<and>
   map id_t (items (toggleTodo s i)) = map id_t (items s) \<and>
   map title (items (toggleTodo s i)) = map title (items s) \<and>
   map createdAt (items (toggleTodo s i)) = map createdAt (items s) \<and>
   (\<forall>j<length (items s). id_t (items s ! j) \<noteq> i \<longrightarrow>
      items (toggleTodo s i) ! j = items s ! j) \<and>
   (\<forall>j<length (items s). \<forall>k<length (items s).
      items (toggleTodo s i) ! j \<noteq> items s ! j \<and> items (toggleTodo s i) ! k \<noteq> items s ! k
      \<longrightarrow> j = k)"
proof (cases "find_js (\<lambda>x. id_t x = i) (items s)")
  case None
  then show ?thesis by (simp add: toggleTodo_def)
next
  case (Some k)
  let ?t = "items s ! k"
  from find_js_Some [OF Some] have lt: "k < length (items s)" and idk: "id_t ?t = i"
    by simp_all
  have eq: "items (toggleTodo s i) = (items s)[k := ?t\<lparr>done_t := \<not> done_t ?t\<rparr>]"
    by (rule items_toggle_found [OF Some])
  have m: "map f ((items s)[k := ?t\<lparr>done_t := \<not> done_t ?t\<rparr>]) = map f (items s)"
    if "f (?t\<lparr>done_t := \<not> done_t ?t\<rparr>) = f ?t" for f :: "task \<Rightarrow> 'b"
    using that lt by (simp add: map_update list_update_same_conv)
  have 1: "length (items (toggleTodo s i)) = length (items s)" by (simp add: eq)
  have 2: "map id_t (items (toggleTodo s i)) = map id_t (items s)" by (simp add: eq m)
  have 3: "map title (items (toggleTodo s i)) = map title (items s)" by (simp add: eq m)
  have 4: "map createdAt (items (toggleTodo s i)) = map createdAt (items s)" by (simp add: eq m)
  have 5: "\<forall>j<length (items s). id_t (items s ! j) \<noteq> i \<longrightarrow>
      items (toggleTodo s i) ! j = items s ! j"
  proof (intro allI impI)
    fix j
    assume "j < length (items s)" and "id_t (items s ! j) \<noteq> i"
    with idk have "k \<noteq> j" by auto
    then show "items (toggleTodo s i) ! j = items s ! j" by (simp add: eq)
  qed
  have 6: "\<forall>j<length (items s). \<forall>k<length (items s).
      items (toggleTodo s i) ! j \<noteq> items s ! j \<and> items (toggleTodo s i) ! k \<noteq> items s ! k
      \<longrightarrow> j = k"
    using lt by (auto simp: eq nth_list_update split: if_splits)
  from 1 2 3 4 5 6 show ?thesis by blast
qed

theorem toggleTodo_frame_witness:
  "(0::nat) < length (items todos_mixed) \<and> id_t (items todos_mixed ! 0) \<noteq> [0x61] \<and>
   items (toggleTodo todos_mixed [0x61]) ! 0 = task_c \<and>
   map id_t (items (toggleTodo todos_mixed [0x61])) = [[0x61, 0x61], [0x61]] \<and>
   items (toggleTodo todos_mixed [0x61]) ! 1 \<noteq> items todos_mixed ! 1"
proof -
  have a: "(0::nat) < length (items todos_mixed)" by (simp add: todos_mixed_def)
  have b: "id_t (items todos_mixed ! 0) \<noteq> [0x61]" by (simp add: todos_mixed_def task_c_def)
  have c: "items todos_mixed ! 0 = task_c" by (simp add: todos_mixed_def)
  have d: "map id_t (items todos_mixed) = [[0x61, 0x61], [0x61]]"
    by (simp add: todos_mixed_def task_b_def task_c_def)
  have e: "items (toggleTodo todos_mixed [0x61]) ! 1 \<noteq> items todos_mixed ! 1"
    by (simp add: toggleTodo_def todos_mixed_def task_b_def task_c_def)
  from toggleTodo_frame [of todos_mixed "[0x61]"] a b c d
  have "items (toggleTodo todos_mixed [0x61]) ! 0 = task_c"
    and "map id_t (items (toggleTodo todos_mixed [0x61])) = [[0x61, 0x61], [0x61]]"
    by auto
  with a b e show ?thesis by blast
qed

text \<open>
  C10. The four actions of the \<open>ui\<close> slice leave the \<open>todos\<close> part of the state
  unchanged, and the four actions of the \<open>todos\<close> slice leave the \<open>ui\<close> part unchanged;
  so the \<open>toggleTodo\<close> reducer does not set \<open>doneNotificationVisible\<close>. The only action
  that turns this flag from false to true is \<open>showDoneNotification\<close>, which
  \<open>handleToggleDone\<close> dispatches after \<open>toggleTodo\<close> when \<open>currentDone\<close> is
  false and does not dispatch when it is true.
\<close>

theorem slices_are_independent:
  "todos (rootReducer s ToggleDarkMode) = todos s \<and>
   todos (rootReducer s DismissBanner) = todos s \<and>
   todos (rootReducer s ShowDoneNotification) = todos s \<and>
   todos (rootReducer s DismissDoneNotification) = todos s \<and>
   ui (rootReducer s (AddTodo p)) = ui s \<and>
   ui (rootReducer s (ToggleTodo i)) = ui s \<and>
   ui (rootReducer s (RemoveTodo i)) = ui s \<and>
   ui (rootReducer s ClearTodos) = ui s \<and>
   (doneNotificationVisible (ui (rootReducer s a)) \<and> \<not> doneNotificationVisible (ui s)
      \<longrightarrow> a = ShowDoneNotification) \<and>
   doneNotificationVisible (ui (rootReducer s ShowDoneNotification)) \<and>
   handleToggleDone i False w = dispatch ShowDoneNotification (dispatch (ToggleTodo i) w) \<and>
   handleToggleDone i True w = dispatch (ToggleTodo i) w"
proof -
  have "doneNotificationVisible (ui (rootReducer s a)) \<and> \<not> doneNotificationVisible (ui s)
      \<longrightarrow> a = ShowDoneNotification"
    by (cases a)
      (simp_all add: rootReducer_def toggleDarkMode_def dismissBanner_def
        dismissDoneNotification_def)
  then show ?thesis
    by (simp add: rootReducer_def showDoneNotification_def handleToggleDone_def)
qed

theorem slices_are_independent_witness:
  "\<not> doneNotificationVisible (ui store_one_task) \<and>
   doneNotificationVisible (ui (rootReducer store_one_task ShowDoneNotification)) \<and>
   \<not> doneNotificationVisible (ui (rootReducer store_one_task (ToggleTodo [0x61]))) \<and>
   done_t (items (todos (rootReducer store_one_task (ToggleTodo [0x61]))) ! 0)"
proof -
  have n: "\<not> doneNotificationVisible (ui store_one_task)"
    by (simp add: store_one_task_def ui_initialState_def)
  have d: "done_t (items (todos (rootReducer store_one_task (ToggleTodo [0x61]))) ! 0)"
    by (simp add: store_one_task_def rootReducer_def toggleTodo_def todos_undone_def task_b_def)
  from slices_are_independent [of store_one_task _ "[0x61]" "ToggleTodo [0x61]"] n
  have "\<not> doneNotificationVisible (ui (rootReducer store_one_task (ToggleTodo [0x61])))"
    and "doneNotificationVisible (ui (rootReducer store_one_task ShowDoneNotification))"
    by auto
  with n d show ?thesis by blast
qed

end
